theory Spec2Isabelle
  imports Main "HOL-Library.Word" "HOL-Library.Sublist"
begin

section \<open>Stream health core: data model\<close>

text \<open>
  Go pointers to heap objects are addresses into an explicit heap, so that "the same
  Record" is equality of addresses, as \<open>==\<close> on \<open>*Record\<close> is in Go.
\<close>

type_synonym ConditionType = string
type_synonym EventType = string
type_synonym UUID = "128 word"
type_synonym Time = int \<comment> \<open>milliseconds since the epoch\<close>
type_synonym Duration = "64 word" \<comment> \<open>Go's \<open>time.Duration\<close>: an int64 count of nanoseconds\<close>

text \<open>The value of an \<open>interface{}\<close> slot; the record store never looks into it.\<close>

datatype interface_value = Boxed nat

text \<open>The statistics payload of a condition: a count per window.\<close>

datatype Stats = ByWindow "(Duration \<times> nat) list"

record Condition =
  Type :: ConditionType
  Status :: "bool option" \<comment> \<open>\<open>*bool\<close>: \<open>None\<close> is the unknown status\<close>
  Frequency :: "Stats option"
  LastProbeTime :: "Time option"
  LastTransitionTime :: "Time option"

text \<open>
  Go's field names repeat across structs (\<open>Type\<close>, \<open>ID\<close>, \<open>ManifestID\<close>,
  \<open>Conditions\<close>); a repeated name carries its struct's name in front here.
\<close>

record Base =
  Base_Type :: EventType
  Base_ID :: UUID
  Base_Timestamp :: Time
  Base_ManifestID :: string

record Status =
  Status_ManifestID :: string
  Healthy :: Condition
  Status_Conditions :: "Condition list"

record Record =
  ManifestID :: string
  Conditions :: "ConditionType list"
  PastEvents :: "Base list"
  ReducersState :: "int \<rightharpoonup> interface_value"
  LastStatus :: Status

text \<open>
  Modelled from the spec: \<open>NewCondition\<close> is declared outside \<open>src/\<close>. Its arguments
  are read, after the fields of a condition in section 3 of the spec, as the type, the
  time of the event, the status, the statistics and the previous condition. The new
  condition starts from the previous one when that has the same type; a nil status
  leaves status and times alone; a status sets the probe time, and the transition time
  when the status value differs from the previous one (section 4.7: unchanged if the
  status value is unchanged, else the event's timestamp). \<open>NewRecord\<close> calls it with
  nil for all three, which gives the condition of that type with unknown status and no
  times.
\<close>

definition NewCondition ::
  "ConditionType \<Rightarrow> Time \<Rightarrow> bool option \<Rightarrow> Stats option \<Rightarrow> Condition option \<Rightarrow> Condition" where
  "NewCondition condType ts status frequency prev =
    (let cond0 = (case prev of
                    Some l \<Rightarrow> if Type l = condType then l
                              else \<lparr>Type = condType, Status = None, Frequency = None,
                                     LastProbeTime = None, LastTransitionTime = None\<rparr>
                  | None \<Rightarrow> \<lparr>Type = condType, Status = None, Frequency = None,
                              LastProbeTime = None, LastTransitionTime = None\<rparr>);
         cond1 = (case status of
                    None \<Rightarrow> cond0
                  | Some b \<Rightarrow>
                      cond0\<lparr>Status := Some b, LastProbeTime := Some ts,
                            LastTransitionTime :=
                              (if Status cond0 = Some b then LastTransitionTime cond0
                               else Some ts)\<rparr>)
     in (case frequency of None \<Rightarrow> cond1 | Some f \<Rightarrow> cond1\<lparr>Frequency := Some f\<rparr>))"

text \<open>\<open>time.Time{}\<close>, the zero time.\<close>

definition zero_Time :: Time where
  "zero_Time = 0"

definition NewRecord :: "string \<Rightarrow> ConditionType list \<Rightarrow> Record" where
  "NewRecord mid conditions =
    \<lparr>ManifestID = mid,
     Conditions = conditions,
     PastEvents = [],
     ReducersState = Map.empty,
     LastStatus =
       \<lparr>Status_ManifestID = mid,
        Healthy = NewCondition '''' zero_Time None None None,
        Status_Conditions = map (\<lambda>cond. NewCondition cond zero_Time None None None) conditions\<rparr>\<rparr>"

section \<open>Record store\<close>

text \<open>
  \<open>RecordStorage\<close> holds a \<open>sync.Map\<close> from manifest id to \<open>*Record\<close>. The state is the
  map together with the heap of allocated \<open>Record\<close> objects; \<open>next_ref\<close> is the address
  the next allocation returns.
\<close>

record RecordStorage =
  records :: "string \<rightharpoonup> nat"
  heap :: "nat \<rightharpoonup> Record"
  next_ref :: nat

text \<open>The zero value \<open>RecordStorage{}\<close>: an empty map, and nothing allocated.\<close>

definition empty_storage :: RecordStorage where
  "empty_storage = \<lparr>records = Map.empty, heap = Map.empty, next_ref = 0\<rparr>"

text \<open>\<open>sync.Map.Load\<close> and \<open>sync.Map.LoadOrStore\<close>, each one atomic step.\<close>

definition Load :: "string \<Rightarrow> RecordStorage \<Rightarrow> nat option" where
  "Load key s = records s key"

definition LoadOrStore :: "string \<Rightarrow> nat \<Rightarrow> RecordStorage \<Rightarrow> (nat \<times> bool) \<times> RecordStorage" where
  "LoadOrStore key val s =
    (case records s key of
       Some actual \<Rightarrow> ((actual, True), s)
     | None \<Rightarrow> ((val, False), s\<lparr>records := (records s)(key \<mapsto> val)\<rparr>))"

text \<open>\<open>&Record{...}\<close>: the new object gets a fresh address.\<close>

definition alloc :: "Record \<Rightarrow> RecordStorage \<Rightarrow> nat \<times> RecordStorage" where
  "alloc rec s = (next_ref s, s\<lparr>heap := (heap s)(next_ref s \<mapsto> rec), next_ref := Suc (next_ref s)\<rparr>)"

definition Get :: "string \<Rightarrow> RecordStorage \<Rightarrow> nat option \<times> RecordStorage" where
  "Get manifestId s =
    (case Load manifestId s of
       Some saved \<Rightarrow> (Some saved, s)
     | None \<Rightarrow> (None, s))"

definition GetOrCreate :: "string \<Rightarrow> ConditionType list \<Rightarrow> RecordStorage \<Rightarrow> nat \<times> RecordStorage" where
  "GetOrCreate manifestId conditions s =
    (case Get manifestId s of
       (Some saved, s1) \<Rightarrow> (saved, s1)
     | (None, s1) \<Rightarrow>
         (let (new, s2) = alloc (NewRecord manifestId conditions) s1;
              ((actual, loaded), s3) = LoadOrStore manifestId new s2
          in if loaded then (actual, s3) else (new, s3)))"

text \<open>\<open>n\<close> calls \<open>GetOrCreate(m, C)\<close> one after the other, with the results in call order.\<close>

fun GetOrCreate_repeat ::
  "nat \<Rightarrow> string \<Rightarrow> ConditionType list \<Rightarrow> RecordStorage \<Rightarrow> nat list \<times> RecordStorage" where
  "GetOrCreate_repeat 0 m C s = ([], s)"
| "GetOrCreate_repeat (Suc n) m C s =
    (let (r, s1) = GetOrCreate m C s;
         (rs, s2) = GetOrCreate_repeat n m C s1
     in (r # rs, s2))"

text \<open>
  Concurrent callers: \<open>GetOrCreate\<close> is two atomic operations of the \<open>sync.Map\<close>, the
  \<open>Load\<close> inside \<open>Get\<close> and \<open>LoadOrStore\<close>, and other goroutines may run between them.
  A call is before its \<open>Get\<close> (\<open>Calling\<close>), after a miss with its new record allocated
  (\<open>Storing\<close>), or has returned a record (\<open>Returned\<close>).
\<close>

datatype call = Calling string "ConditionType list" | Storing string nat | Returned string nat

fun step_call :: "call \<Rightarrow> RecordStorage \<Rightarrow> call \<times> RecordStorage" where
  "step_call (Calling m C) s =
    (case Get m s of
       (Some saved, s1) \<Rightarrow> (Returned m saved, s1)
     | (None, s1) \<Rightarrow> (let (new, s2) = alloc (NewRecord m C) s1 in (Storing m new, s2)))"
| "step_call (Storing m new) s =
    (let ((actual, loaded), s3) = LoadOrStore m new s
     in if loaded then (Returned m actual, s3) else (Returned m new, s3))"
| "step_call (Returned m r) s = (Returned m r, s)"

text \<open>A schedule names, step by step, the call that runs next.\<close>

fun run :: "nat list \<Rightarrow> call list \<times> RecordStorage \<Rightarrow> call list \<times> RecordStorage" where
  "run [] cfg = cfg"
| "run (i # sched) (calls, s) =
    (if i < length calls
     then (let (c, s') = step_call (calls ! i) s in run sched (calls[i := c], s'))
     else run sched (calls, s))"

fun returned_ok :: "RecordStorage \<Rightarrow> call \<Rightarrow> bool" where
  "returned_ok s (Returned m r) = (records s m = Some r)"
| "returned_ok s (Calling m C) = True"
| "returned_ok s (Storing m new) = True"

section \<open>Events\<close>

definition EventTypeTask :: EventType where
  "EventTypeTask = ''task''"

text \<open>
  Modelled from the spec: the constant \<open>EventTypeTranscode\<close> is declared outside \<open>src/\<close>;
  section 3 of the spec gives the tag of a transcode event as \<open>transcode\<close>.
\<close>

definition EventTypeTranscode :: EventType where
  "EventTypeTranscode = ''transcode''"

text \<open>
  Modelled from the spec: \<open>newEventBase\<close> is declared outside \<open>src/\<close>. It fills the
  envelope of section 3 with the type tag and the manifest id it is given; the fresh
  event id and the current time are arguments here.
\<close>

definition newEventBase :: "UUID \<Rightarrow> Time \<Rightarrow> EventType \<Rightarrow> string \<Rightarrow> Base" where
  "newEventBase uuid now type mid =
    \<lparr>Base_Type = type, Base_ID = uuid, Base_Timestamp = now, Base_ManifestID = mid\<rparr>"

record TaskInfo =
  TaskInfo_ID :: string
  TaskInfo_Type :: string
  Snapshot :: interface_value

record TaskEvent =
  Base :: Base
  Task :: TaskInfo

definition NewTaskEvent :: "UUID \<Rightarrow> Time \<Rightarrow> TaskInfo \<Rightarrow> TaskEvent" where
  "NewTaskEvent uuid now info =
    \<lparr>Base = newEventBase uuid now EventTypeTranscode '''',
     Task = info\<rparr>"

section \<open>Default reducers\<close>

text \<open>The constants of Go's \<open>time\<close> package.\<close>

definition Nanosecond :: Duration where
  "Nanosecond = 1"

definition Microsecond :: Duration where
  "Microsecond = 1000 * Nanosecond"

definition Millisecond :: Duration where
  "Millisecond = 1000 * Microsecond"

definition Second :: Duration where
  "Second = 1000 * Millisecond"

definition Minute :: Duration where
  "Minute = 60 * Second"

definition Hour :: Duration where
  "Hour = 60 * Minute"

definition statsWindows :: "Duration list" where
  "statsWindows = [1 * Minute, 10 * Minute, 1 * Hour]"

text \<open>
  \<open>statsWindows[len(statsWindows)-1]\<close>: an index out of range panics when the package
  is initialised, which is \<open>None\<close> here.
\<close>

definition maxStatsWindow :: "Duration option" where
  "maxStatsWindow =
    (if statsWindows = [] then None
     else Some (statsWindows ! (length statsWindows - 1)))"

definition DefaultStarTimeOffset :: "Duration option" where
  "DefaultStarTimeOffset = maxStatsWindow"

text \<open>
  A \<open>Pipeline\<close> is a slice of reducers and a reducer itself, so pipelines nest:
  \<open>append(p, Pipeline{...})\<close> adds the inner pipeline to \<open>p\<close> as one element.
\<close>

datatype Reducer =
    StreamStateReducer string
  | TranscodeReducer string "string list"
  | MultistreamReducer
  | MediaServerMetrics
  | HealthReducer
  | StatsReducer "Duration list"
  | Pipeline "Reducer list"

definition Default :: "string \<Rightarrow> string list \<Rightarrow> string \<Rightarrow> Reducer" where
  "Default golpExchange shardPrefixes streamStateExchange =
    (let p0 = [];
         p = (if streamStateExchange \<noteq> '''' then p0 @ [StreamStateReducer streamStateExchange]
              else p0)
     in Pipeline (p @ [Pipeline
          [TranscodeReducer golpExchange shardPrefixes,
           MultistreamReducer,
           MediaServerMetrics,
           HealthReducer,
           StatsReducer statsWindows]]))"

text \<open>
  The reducers of a pipeline in the order in which they stand in it, the reducers of a
  nested pipeline standing at that pipeline's place. It is the order in which they run:
  a pipeline invokes its reducers left to right (section 4.2 of the spec).
\<close>

fun reducers_in_order :: "Reducer \<Rightarrow> Reducer list" where
  "reducers_in_order (Pipeline rs) = concat (map reducers_in_order rs)"
| "reducers_in_order r = [r]"

text \<open>The reducers that read events of one kind and write their own conditions.\<close>

fun primitive :: "Reducer \<Rightarrow> bool" where
  "primitive (StreamStateReducer x) = True"
| "primitive (TranscodeReducer g sp) = True"
| "primitive MultistreamReducer = True"
| "primitive MediaServerMetrics = True"
| "primitive r = False"

section \<open>Health aggregation\<close>

text \<open>
  Modelled from the spec: the body of \<open>HealthReducer\<close> is declared outside \<open>src/\<close>
  (\<open>defaults.go\<close> only places it in the pipeline). Section 3, invariant 5, with the
  rule of section 4.7 that a true aggregate needs at least one true sub-condition: the
  status is unknown when every sub-condition is unknown, true when every sub-condition
  that is not unknown is true, and false otherwise.
\<close>

definition healthy_status :: "bool option list \<Rightarrow> bool option" where
  "healthy_status statuses =
    (if list_all (\<lambda>st. st = None) statuses then None
     else if list_all (\<lambda>st. st = None \<or> st = Some True) statuses then Some True
     else Some False)"

text \<open>
  Modelled from the spec: section 4.7, the probe time of \<open>Healthy\<close> is the largest probe
  time of the sub-conditions.
\<close>

fun max_probe :: "Time option list \<Rightarrow> Time option" where
  "max_probe [] = None"
| "max_probe (None # ts) = max_probe ts"
| "max_probe (Some t # ts) =
    (case max_probe ts of None \<Rightarrow> Some t | Some u \<Rightarrow> Some (max t u))"

text \<open>
  Modelled from the spec: section 4.7, the reducer reads the conditions its predecessors
  left in the status and writes \<open>Healthy\<close>; the transition time stays when the status
  value stays, and is the event's timestamp otherwise.
\<close>

definition HealthReducer_Reduce :: "Status \<Rightarrow> Base \<Rightarrow> Status" where
  "HealthReducer_Reduce current evt =
    (let old = Healthy current;
         st = healthy_status (map Status (Status_Conditions current))
     in current\<lparr>Healthy :=
          old\<lparr>Status := st,
              LastProbeTime := max_probe (map LastProbeTime (Status_Conditions current)),
              LastTransitionTime :=
                (if st = Status old then LastTransitionTime old
                 else Some (Base_Timestamp evt))\<rparr>\<rparr>)"

section \<open>Core queries\<close>

datatype error = ErrEventNotFound | ErrStreamNotFound | Err string

text \<open>
  The core the handler queries: the record store, and for each manifest the events its
  fan-out delivers to a subscription registered now, up to the close of the channel.
\<close>

record Core =
  storage :: RecordStorage
  published :: "string \<Rightarrow> Base list"

definition Core_record :: "Core \<Rightarrow> string \<Rightarrow> Record option" where
  "Core_record core manifestID =
    (case fst (Get manifestID (storage core)) of
       None \<Rightarrow> None
     | Some r \<Rightarrow> heap (storage core) r)"

text \<open>
  Modelled from the spec: \<open>Core.GetPastEvents\<close> is declared outside \<open>src/\<close>. Sections 4.3
  and 4.5: the events of the record's history with a timestamp in the range, inclusive
  on the low end and exclusive on the high end; the empty slice and no error on an
  unknown manifest.
\<close>

definition GetPastEvents ::
  "Core \<Rightarrow> string \<Rightarrow> Time option \<Rightarrow> Time option \<Rightarrow> Base list \<times> error option" where
  "GetPastEvents core manifestID from_t to_t =
    (case Core_record core manifestID of
       None \<Rightarrow> ([], None)
     | Some rec \<Rightarrow>
         (filter (\<lambda>e. (case from_t of None \<Rightarrow> True | Some f \<Rightarrow> f \<le> Base_Timestamp e) \<and>
                      (case to_t of None \<Rightarrow> True | Some t \<Rightarrow> Base_Timestamp e < t))
            (PastEvents rec), None))"

text \<open>
  Modelled from the spec: \<open>Core.SubscribeEvents\<close> is declared outside \<open>src/\<close>. Sections
  4.3, 4.5 and 7: a manifest with no record is \<open>StreamNotFound\<close>; with a last event id
  the backlog starts right after the event of that id, and an id that is not in the
  history is \<open>EventNotFound\<close>; without one the backlog starts at the first event with a
  timestamp at or after \<open>from\<close>, or at the oldest retained event when neither is given.
  The result is the backlog, the live channel (\<open>None\<close> is Go's nil channel) and the error.
\<close>

definition SubscribeEvents ::
  "Core \<Rightarrow> string \<Rightarrow> UUID option \<Rightarrow> Time option \<Rightarrow> Base list \<times> Base list option \<times> error option" where
  "SubscribeEvents core manifestID lastEvtID from_t =
    (case Core_record core manifestID of
       None \<Rightarrow> ([], None, Some ErrStreamNotFound)
     | Some rec \<Rightarrow>
         (case lastEvtID of
            Some last_id \<Rightarrow>
              (if last_id \<in> set (map Base_ID (PastEvents rec))
               then (tl (dropWhile (\<lambda>e. Base_ID e \<noteq> last_id) (PastEvents rec)),
                     Some (published core manifestID), None)
               else ([], None, Some ErrEventNotFound))
          | None \<Rightarrow>
              (case from_t of
                 Some f \<Rightarrow> (dropWhile (\<lambda>e. Base_Timestamp e < f) (PastEvents rec),
                            Some (published core manifestID), None)
               | None \<Rightarrow> (PastEvents rec, Some (published core manifestID), None))))"

section \<open>The events handler\<close>

text \<open>Go's \<open>net/http\<close> status codes.\<close>

definition StatusBadRequest :: nat where
  "StatusBadRequest = 400"

definition StatusNotFound :: nat where
  "StatusNotFound = 404"

definition StatusInternalServerError :: nat where
  "StatusInternalServerError = 500"

text \<open>
  What the handler does to the response writer, in order: an error response with its
  HTTP status and errors, or the call of \<open>jsse.ServeEvents\<close> on a channel, given by the
  events the channel carries until it is closed.
\<close>

datatype 'e effect = Respond nat "error list" | ServeEvents "'e list"

text \<open>
  Modelled from the spec: \<open>respondError\<close> is declared outside \<open>src/\<close>. Section 7:
  \<open>EventNotFound\<close> and \<open>StreamNotFound\<close> map to HTTP 404; any other error keeps the
  status of the call.
\<close>

definition respondError :: "nat \<Rightarrow> error list \<Rightarrow> 'e effect" where
  "respondError defaultStatus errs =
    Respond (if ErrEventNotFound \<in> set errs \<or> ErrStreamNotFound \<in> set errs
             then StatusNotFound else defaultStatus) errs"

text \<open>
  Modelled from the spec: \<open>nonNilErrs\<close> is declared outside \<open>src/\<close>. Section 6 has a
  400 response on malformed parameters; the function gives the errors among its
  arguments that are not nil, in order.
\<close>

definition nonNilErrs :: "error option list \<Rightarrow> error list" where
  "nonNilErrs errs = concat (map (\<lambda>e. case e of None \<Rightarrow> [] | Some x \<Rightarrow> [x]) errs)"

text \<open>
  The request as the handler reads it: the stream id of the stream status, and the
  results of \<open>parseInputUUID\<close>, \<open>parseInputTimestamp\<close> and \<open>strconv.ParseBool\<close> (declared
  outside \<open>src/\<close>), each a value with its error.
\<close>

record Request =
  streamID :: string
  lastEventID :: "UUID option"
  err :: "error option"
  from_q :: "Time option"
  err1 :: "error option"
  to_q :: "Time option"
  err2 :: "error option"
  mustFindLast :: bool

text \<open>
  The context of the request, as the \<open>select\<close> statements of \<open>sendEvent\<close> see it: for
  each \<open>select\<close> in turn, whether the case \<open><-ctx.Done()\<close> is the one taken. Once the
  list is used up the context is not done.
\<close>

type_synonym ctx = "bool list"

text \<open>\<open>toSSEEvent\<close> is declared outside \<open>src/\<close> and is an argument: the SSE event or the error.\<close>

definition sendEvent ::
  "(Base \<Rightarrow> error + 'e) \<Rightarrow> ctx \<Rightarrow> 'e list \<Rightarrow> Base \<Rightarrow> bool \<times> ctx \<times> 'e list" where
  "sendEvent toSSEEvent ctx dest evt =
    (case toSSEEvent evt of
       Inl e \<Rightarrow> (True, ctx, dest)
     | Inr sseEvt \<Rightarrow>
         (case ctx of
            [] \<Rightarrow> (True, [], dest @ [sseEvt])
          | done_taken # ctx' \<Rightarrow>
              if done_taken then (False, ctx', dest) else (True, ctx', dest @ [sseEvt])))"

text \<open>The loop of the branch without a subscription: the result of \<open>sendEvent\<close> is dropped.\<close>

fun send_each ::
  "(Base \<Rightarrow> error + 'e) \<Rightarrow> ctx \<Rightarrow> 'e list \<Rightarrow> Base list \<Rightarrow> ctx \<times> 'e list" where
  "send_each toSSEEvent ctx dest [] = (ctx, dest)"
| "send_each toSSEEvent ctx dest (evt # evts) =
    (let (ok, ctx', dest') = sendEvent toSSEEvent ctx dest evt
     in send_each toSSEEvent ctx' dest' evts)"

text \<open>A loop of the goroutine: it returns at the first \<open>sendEvent\<close> that gives false.\<close>

fun send_while ::
  "(Base \<Rightarrow> error + 'e) \<Rightarrow> ctx \<Rightarrow> 'e list \<Rightarrow> Base list \<Rightarrow> bool \<times> ctx \<times> 'e list" where
  "send_while toSSEEvent ctx dest [] = (True, ctx, dest)"
| "send_while toSSEEvent ctx dest (evt # evts) =
    (let (ok, ctx', dest') = sendEvent toSSEEvent ctx dest evt
     in if \<not> ok then (False, ctx', dest') else send_while toSSEEvent ctx' dest' evts)"

text \<open>
  The channel \<open>makeSSEEventChan\<close> returns, given by the events a reader receives from it
  until it is closed. The subscription is the list of events its channel delivers until
  it is closed, \<open>None\<close> for the nil channel.
\<close>

definition makeSSEEventChan ::
  "(Base \<Rightarrow> error + 'e) \<Rightarrow> ctx \<Rightarrow> Base list \<Rightarrow> Base list option \<Rightarrow> 'e list" where
  "makeSSEEventChan toSSEEvent ctx pastEvents subscription =
    (case subscription of
       None \<Rightarrow> snd (send_each toSSEEvent ctx [] pastEvents)
     | Some live \<Rightarrow>
         (let (ok, ctx', events) = send_while toSSEEvent ctx [] pastEvents
          in if \<not> ok then events
             else (let (ok', ctx'', events') = send_while toSSEEvent ctx' events live
                   in events')))"

text \<open>The error of \<open>jsse.ServeEvents\<close>: a \<open>jsse.HTTPError\<close> with its status and cause, or another.\<close>

datatype serve_error = HTTPError nat error | OtherError error

definition ErrFromRequired :: error where
  "ErrFromRequired = Err (''query 'from' is required when using 'to'' @ [CHR 0x27])"

text \<open>
  Lines 149 to 160 of \<open>subscribeEvents\<close>: the status and the error of the early return,
  or the values of \<open>pastEvents\<close>, \<open>subscription\<close> and \<open>err\<close> after the statement.
\<close>

definition queryEvents ::
  "Core \<Rightarrow> Request \<Rightarrow> (nat \<times> error list) + (Base list \<times> Base list option \<times> error option)" where
  "queryEvents core r =
    (case to_q r of
       Some to_t \<Rightarrow>
         (case from_q r of
            None \<Rightarrow> Inl (StatusBadRequest, [ErrFromRequired])
          | Some from_t \<Rightarrow>
              (let (pastEvents, e) = GetPastEvents core (streamID r) (from_q r) (to_q r)
               in Inr (pastEvents, None, e)))
     | None \<Rightarrow>
         (let (pastEvents, subscription, e) =
                SubscribeEvents core (streamID r) (lastEventID r) (from_q r)
          in if e = Some ErrEventNotFound \<and> \<not> mustFindLast r
             then Inr (SubscribeEvents core (streamID r) None None)
             else Inr (pastEvents, subscription, e)))"

text \<open>
  The handler. \<open>serve\<close> is the error \<open>jsse.ServeEvents\<close> returns for a channel (\<open>None\<close>
  is nil). The query parameters \<open>from\<close> and \<open>to\<close> are \<open>from_q\<close> and \<open>to_q\<close>.
\<close>

definition subscribeEvents ::
  "(Base \<Rightarrow> error + 'e) \<Rightarrow> ('e list \<Rightarrow> serve_error option) \<Rightarrow> ctx \<Rightarrow> Core \<Rightarrow> Request \<Rightarrow> 'e effect list" where
  "subscribeEvents toSSEEvent serve ctx core r =
    (let errs = nonNilErrs [err r, err1 r, err2 r]
     in if length errs > 0 then [respondError StatusBadRequest errs]
        else
          (case queryEvents core r of
             Inl (status, errs') \<Rightarrow> [respondError status errs']
           | Inr (pastEvents, subscription, Some e) \<Rightarrow>
               [respondError StatusInternalServerError [e]]
           | Inr (pastEvents, subscription, None) \<Rightarrow>
               (let sseEvents = makeSSEEventChan toSSEEvent ctx pastEvents subscription
                in (case serve sseEvents of
                      None \<Rightarrow> [ServeEvents sseEvents]
                    | Some (HTTPError status cause) \<Rightarrow>
                        [ServeEvents sseEvents, respondError status [cause]]
                    | Some (OtherError e) \<Rightarrow>
                        [ServeEvents sseEvents, respondError StatusInternalServerError [e]]))))"

text \<open>
  The calls the handler makes on the core, in order. \<open>queryEvents_traced\<close> and
  \<open>subscribeEvents_traced\<close> are \<open>queryEvents\<close> and \<open>subscribeEvents\<close> again, statement
  by statement, with each call of \<open>GetPastEvents\<close> and \<open>SubscribeEvents\<close> written down
  with its arguments where the handler makes it.
\<close>

datatype core_call =
    Call_GetPastEvents string "Time option" "Time option"
  | Call_SubscribeEvents string "UUID option" "Time option"

definition queryEvents_traced ::
  "Core \<Rightarrow> Request \<Rightarrow>
   core_call list \<times> ((nat \<times> error list) + (Base list \<times> Base list option \<times> error option))" where
  "queryEvents_traced core r =
    (case to_q r of
       Some to_t \<Rightarrow>
         (case from_q r of
            None \<Rightarrow> ([], Inl (StatusBadRequest, [ErrFromRequired]))
          | Some from_t \<Rightarrow>
              (let (pastEvents, e) = GetPastEvents core (streamID r) (from_q r) (to_q r)
               in ([Call_GetPastEvents (streamID r) (from_q r) (to_q r)],
                   Inr (pastEvents, None, e))))
     | None \<Rightarrow>
         (let (pastEvents, subscription, e) =
                SubscribeEvents core (streamID r) (lastEventID r) (from_q r)
          in if e = Some ErrEventNotFound \<and> \<not> mustFindLast r
             then ([Call_SubscribeEvents (streamID r) (lastEventID r) (from_q r),
                    Call_SubscribeEvents (streamID r) None None],
                   Inr (SubscribeEvents core (streamID r) None None))
             else ([Call_SubscribeEvents (streamID r) (lastEventID r) (from_q r)],
                   Inr (pastEvents, subscription, e))))"

definition subscribeEvents_traced ::
  "(Base \<Rightarrow> error + 'e) \<Rightarrow> ('e list \<Rightarrow> serve_error option) \<Rightarrow> ctx \<Rightarrow> Core \<Rightarrow> Request \<Rightarrow>
   core_call list \<times> 'e effect list" where
  "subscribeEvents_traced toSSEEvent serve ctx core r =
    (let errs = nonNilErrs [err r, err1 r, err2 r]
     in if length errs > 0 then ([], [respondError StatusBadRequest errs])
        else
          (case queryEvents_traced core r of
             (calls, Inl (status, errs')) \<Rightarrow> (calls, [respondError status errs'])
           | (calls, Inr (pastEvents, subscription, Some e)) \<Rightarrow>
               (calls, [respondError StatusInternalServerError [e]])
           | (calls, Inr (pastEvents, subscription, None)) \<Rightarrow>
               (let sseEvents = makeSSEEventChan toSSEEvent ctx pastEvents subscription
                in (case serve sseEvents of
                      None \<Rightarrow> (calls, [ServeEvents sseEvents])
                    | Some (HTTPError status cause) \<Rightarrow>
                        (calls, [ServeEvents sseEvents, respondError status [cause]])
                    | Some (OtherError e) \<Rightarrow>
                        (calls, [ServeEvents sseEvents,
                                 respondError StatusInternalServerError [e]])))))"

section \<open>Notions the properties are stated with\<close>

text \<open>The events of a list that \<open>toSSEEvent\<close> converts, converted, in the list's order.\<close>

fun converted :: "(Base \<Rightarrow> error + 'e) \<Rightarrow> Base list \<Rightarrow> 'e list" where
  "converted toSSEEvent [] = []"
| "converted toSSEEvent (evt # evts) =
    (case toSSEEvent evt of
       Inl e \<Rightarrow> converted toSSEEvent evts
     | Inr sseEvt \<Rightarrow> sseEvt # converted toSSEEvent evts)"

text \<open>The retained history of a manifest: the past events of its record, none without one.\<close>

definition history :: "Core \<Rightarrow> string \<Rightarrow> Base list" where
  "history core manifestID =
    (case Core_record core manifestID of None \<Rightarrow> [] | Some rec \<Rightarrow> PastEvents rec)"

text \<open>
  Values for the closed instances: a transcode event of manifest \<open>m1\<close>, a conversion to
  SSE that keeps the event's id and never fails, the \<open>jsse.ServeEvents\<close> that returns no
  error, the record of \<open>m1\<close> with three events in its history, a core that holds it, and
  a request for \<open>m1\<close> with no parameters.
\<close>

definition transcode_event :: "UUID \<Rightarrow> Time \<Rightarrow> Base" where
  "transcode_event uuid ts =
    \<lparr>Base_Type = EventTypeTranscode, Base_ID = uuid, Base_Timestamp = ts,
     Base_ManifestID = ''m1''\<rparr>"

definition sse_id :: "Base \<Rightarrow> error + UUID" where
  "sse_id evt = Inr (Base_ID evt)"

definition serve_ok :: "UUID list \<Rightarrow> serve_error option" where
  "serve_ok sseEvents = None"

definition record_m1 :: Record where
  "record_m1 =
    (NewRecord ''m1'' [''Transcoding''])
      \<lparr>PastEvents := [transcode_event 1 10, transcode_event 2 20, transcode_event 3 30]\<rparr>"

definition core_m1 :: Core where
  "core_m1 =
    \<lparr>storage = \<lparr>records = [''m1'' \<mapsto> 0], heap = [0 \<mapsto> record_m1], next_ref = Suc 0\<rparr>,
     published = (\<lambda>m. if m = ''m1'' then [transcode_event 4 40] else [])\<rparr>"

text \<open>
  A status of \<open>m1\<close> before the health reducer runs: \<open>Transcoding\<close> probed true at time
  10, \<open>TranscodeRealTime\<close> not probed yet, and \<open>Healthy\<close> as \<open>NewRecord\<close> leaves it.
\<close>

definition status_m1 :: Status where
  "status_m1 =
    \<lparr>Status_ManifestID = ''m1'',
     Healthy = NewCondition '''' zero_Time None None None,
     Status_Conditions =
       [NewCondition ''Transcoding'' 10 (Some True) None None,
        NewCondition ''TranscodeRealTime'' zero_Time None None None]\<rparr>"

definition request_m1 :: Request where
  "request_m1 =
    \<lparr>streamID = ''m1'', lastEventID = None, err = None, from_q = None, err1 = None,
     to_q = None, err2 = None, mustFindLast = False\<rparr>"

section \<open>Record store: idempotent create\<close>

lemma GetOrCreate_present:
  "records s m = Some r \<Longrightarrow> GetOrCreate m C s = (r, s)"
  by (simp add: GetOrCreate_def Get_def Load_def)

lemma GetOrCreate_absent:
  "records s m = None \<Longrightarrow>
   GetOrCreate m C s =
     (next_ref s,
      s\<lparr>heap := (heap s)(next_ref s \<mapsto> NewRecord m C), next_ref := Suc (next_ref s),
        records := (records s)(m \<mapsto> next_ref s)\<rparr>)"
  by (simp add: GetOrCreate_def Get_def Load_def alloc_def LoadOrStore_def)

lemma GetOrCreate_stores:
  "GetOrCreate m C s = (r, s1) \<Longrightarrow> records s1 m = Some r"
  by (cases "records s m") (auto simp: GetOrCreate_present GetOrCreate_absent)

lemma GetOrCreate_repeat_present:
  "records s m = Some r \<Longrightarrow> GetOrCreate_repeat n m C s = (replicate n r, s)"
  by (induction n) (simp_all add: GetOrCreate_present)

lemma GetOrCreate_next_ref:
  "GetOrCreate m C s = (r, s1) \<Longrightarrow> next_ref s1 \<le> Suc (next_ref s)"
  by (cases "records s m") (auto simp: GetOrCreate_present GetOrCreate_absent)

lemma Get_present:
  "records s m = Some r \<Longrightarrow> Get m s = (Some r, s)"
  by (simp add: Get_def Load_def)

lemma Get_absent:
  "records s m = None \<Longrightarrow> Get m s = (None, s)"
  by (simp add: Get_def Load_def)

text \<open>
  Claim C1. Let a call \<open>GetOrCreate(m, C)\<close> return the record \<open>r\<close>. Then any number of
  further calls \<open>GetOrCreate(m, C)\<close> all return \<open>r\<close> and leave the store as the first call
  left it, \<open>Get(m)\<close> returns \<open>r\<close>, and the calls together allocated at most one \<open>Record\<close>:
  the map holds one record for \<open>m\<close>, the one the first call returned.
\<close>

theorem GetOrCreate_idempotent:
  assumes "GetOrCreate m C s = (r, s1)"
  shows "GetOrCreate_repeat n m C s1 = (replicate n r, s1) \<and>
         Get m s1 = (Some r, s1) \<and>
         records s1 m = Some r \<and>
         next_ref s1 \<le> Suc (next_ref s)"
proof -
  from assms have stored: "records s1 m = Some r"
    by (rule GetOrCreate_stores)
  then have "GetOrCreate_repeat n m C s1 = (replicate n r, s1)"
    by (rule GetOrCreate_repeat_present)
  moreover from stored have "Get m s1 = (Some r, s1)"
    by (rule Get_present)
  moreover from assms have "next_ref s1 \<le> Suc (next_ref s)"
    by (rule GetOrCreate_next_ref)
  ultimately show ?thesis
    using stored by simp
qed

theorem GetOrCreate_idempotent_witness:
  "GetOrCreate ''m1'' [''Transcoding''] empty_storage =
     (0, \<lparr>records = [''m1'' \<mapsto> 0],
          heap = [0 \<mapsto> NewRecord ''m1'' [''Transcoding'']],
          next_ref = Suc 0\<rparr>) \<and>
   GetOrCreate_repeat 2 ''m1'' [''Transcoding'']
       \<lparr>records = [''m1'' \<mapsto> 0],
        heap = [0 \<mapsto> NewRecord ''m1'' [''Transcoding'']],
        next_ref = Suc 0\<rparr> =
     (replicate 2 0, \<lparr>records = [''m1'' \<mapsto> 0],
          heap = [0 \<mapsto> NewRecord ''m1'' [''Transcoding'']],
          next_ref = Suc 0\<rparr>) \<and>
   Get ''m1'' \<lparr>records = [''m1'' \<mapsto> 0],
        heap = [0 \<mapsto> NewRecord ''m1'' [''Transcoding'']],
        next_ref = Suc 0\<rparr> =
     (Some 0, \<lparr>records = [''m1'' \<mapsto> 0],
          heap = [0 \<mapsto> NewRecord ''m1'' [''Transcoding'']],
          next_ref = Suc 0\<rparr>)"
proof -
  have first: "GetOrCreate ''m1'' [''Transcoding''] empty_storage =
     (0, \<lparr>records = [''m1'' \<mapsto> 0],
          heap = [0 \<mapsto> NewRecord ''m1'' [''Transcoding'']],
          next_ref = Suc 0\<rparr>)"
    by (simp add: GetOrCreate_absent empty_storage_def)
  from GetOrCreate_idempotent [OF first, of 2] first show ?thesis
    by simp
qed

text \<open>
  The same under concurrency: whatever the schedule of the calls' atomic steps, from a
  state in which every returned call holds the record the map has for its manifest,
  every returned call still does; so two calls for one manifest never return different
  records.
\<close>

lemma GetOrCreate_steps:
  "GetOrCreate m C s = (r, s') \<longleftrightarrow>
   (let (c1, s1) = step_call (Calling m C) s in step_call c1 s1) = (Returned m r, s')"
  by (cases "records s m")
     (auto simp: GetOrCreate_def Get_def Load_def alloc_def LoadOrStore_def Let_def split: prod.splits)

lemma step_call_records_mono:
  "step_call c s = (c', s') \<Longrightarrow> records s m = Some r \<Longrightarrow> records s' m = Some r"
  by (cases c)
     (auto simp: Get_def Load_def alloc_def LoadOrStore_def Let_def
           split: option.splits prod.splits if_splits)

lemma step_call_returned_ok:
  "step_call c s = (c', s') \<Longrightarrow> returned_ok s c \<Longrightarrow> returned_ok s' c'"
  by (cases c)
     (auto simp: Get_def Load_def alloc_def LoadOrStore_def Let_def
           split: option.splits prod.splits if_splits)

lemma returned_ok_mono:
  "step_call c s = (c', s') \<Longrightarrow> returned_ok s d \<Longrightarrow> returned_ok s' d"
  by (cases d) (auto dest: step_call_records_mono)

lemma run_returned_ok:
  "list_all (returned_ok s) calls \<Longrightarrow> run sched (calls, s) = (calls', s') \<Longrightarrow>
   list_all (returned_ok s') calls'"
proof (induction sched arbitrary: calls s)
  case Nil
  then show ?case by simp
next
  case (Cons i sched)
  show ?case
  proof (cases "i < length calls")
    case False
    with Cons show ?thesis by simp
  next
    case True
    obtain c s1 where st: "step_call (calls ! i) s = (c, s1)"
      by (cases "step_call (calls ! i) s")
    from Cons.prems(1) True have "returned_ok s (calls ! i)"
      by (simp add: list_all_length)
    with st have c: "returned_ok s1 c"
      by (rule step_call_returned_ok)
    from Cons.prems(1) st have "list_all (returned_ok s1) calls"
      by (auto simp: list_all_iff dest: returned_ok_mono)
    with c have "list_all (returned_ok s1) (calls[i := c])"
      by (auto simp: list_all_iff dest: set_update_subset_insert [THEN subsetD])
    moreover from Cons.prems(2) True st have "run sched (calls[i := c], s1) = (calls', s')"
      by simp
    ultimately show ?thesis
      by (rule Cons.IH)
  qed
qed

lemma concurrent_GetOrCreate_agree:
  assumes "run sched (map (\<lambda>(m, C). Calling m C) args, s) = (calls', s')"
    and "Returned m r \<in> set calls'" and "Returned m r' \<in> set calls'"
  shows "r = r' \<and> fst (Get m s') = Some r"
proof -
  have "list_all (returned_ok s) (map (\<lambda>(m, C). Calling m C) args)"
    by (induction args) auto
  from run_returned_ok [OF this assms(1)] have "list_all (returned_ok s') calls'" .
  with assms(2,3) have "records s' m = Some r" and "records s' m = Some r'"
    by (auto simp: list_all_iff)
  then show ?thesis
    by (simp add: Get_def Load_def)
qed

section \<open>Record store: frame\<close>

text \<open>
  Claim C9. For a manifest that is in the store, \<open>Get\<close> and \<open>GetOrCreate\<close> with any
  conditions list return its record and leave the state (the map and every record on
  the heap) as it was. For a manifest that is not in the store \<open>Get\<close> returns nil and
  inserts nothing; and once \<open>GetOrCreate(m, C)\<close> has created the record, a call with
  another list \<open>C'\<close> returns that record, whose \<open>Conditions\<close> are still \<open>C\<close>.
\<close>

theorem GetOrCreate_frame:
  "(records s m = Some r \<longrightarrow> Get m s = (Some r, s) \<and> GetOrCreate m C' s = (r, s)) \<and>
   (records s m = None \<longrightarrow> Get m s = (None, s)) \<and>
   (records s m = None \<and> GetOrCreate m C s = (r1, s1) \<longrightarrow>
      GetOrCreate m C' s1 = (r1, s1) \<and> map_option Conditions (heap s1 r1) = Some C)"
proof (intro conjI impI)
  assume "records s m = Some r"
  then show "Get m s = (Some r, s)" and "GetOrCreate m C' s = (r, s)"
    by (simp_all add: Get_present GetOrCreate_present)
next
  assume "records s m = None"
  then show "Get m s = (None, s)"
    by (rule Get_absent)
next
  assume created: "records s m = None \<and> GetOrCreate m C s = (r1, s1)"
  then have "records s1 m = Some r1"
    by (auto dest: GetOrCreate_stores)
  then show "GetOrCreate m C' s1 = (r1, s1)"
    by (rule GetOrCreate_present)
  from created show "map_option Conditions (heap s1 r1) = Some C"
    by (auto simp: GetOrCreate_absent NewRecord_def)
qed

theorem GetOrCreate_frame_witness:
  "Get ''m1'' \<lparr>records = [''m1'' \<mapsto> 0],
        heap = [0 \<mapsto> NewRecord ''m1'' [''Transcoding'']],
        next_ref = Suc 0\<rparr> =
     (Some 0, \<lparr>records = [''m1'' \<mapsto> 0],
          heap = [0 \<mapsto> NewRecord ''m1'' [''Transcoding'']],
          next_ref = Suc 0\<rparr>) \<and>
   GetOrCreate ''m1'' [''Multistreaming''] \<lparr>records = [''m1'' \<mapsto> 0],
        heap = [0 \<mapsto> NewRecord ''m1'' [''Transcoding'']],
        next_ref = Suc 0\<rparr> =
     (0, \<lparr>records = [''m1'' \<mapsto> 0],
          heap = [0 \<mapsto> NewRecord ''m1'' [''Transcoding'']],
          next_ref = Suc 0\<rparr>) \<and>
   Get ''m2'' empty_storage = (None, empty_storage) \<and>
   map_option Conditions
     (heap \<lparr>records = [''m1'' \<mapsto> 0],
        heap = [0 \<mapsto> NewRecord ''m1'' [''Transcoding'']],
        next_ref = Suc 0\<rparr> 0) = Some [''Transcoding'']"
proof -
  have present: "records \<lparr>records = [''m1'' \<mapsto> 0],
        heap = [0 \<mapsto> NewRecord ''m1'' [''Transcoding'']],
        next_ref = Suc 0\<rparr> ''m1'' = Some 0"
    by simp
  have absent: "records empty_storage ''m1'' = None" "records empty_storage ''m2'' = None"
    by (simp_all add: empty_storage_def)
  have created: "GetOrCreate ''m1'' [''Transcoding''] empty_storage =
     (0, \<lparr>records = [''m1'' \<mapsto> 0],
          heap = [0 \<mapsto> NewRecord ''m1'' [''Transcoding'']],
          next_ref = Suc 0\<rparr>)"
    by (simp add: GetOrCreate_absent empty_storage_def)
  from GetOrCreate_frame [of "\<lparr>records = [''m1'' \<mapsto> 0],
        heap = [0 \<mapsto> NewRecord ''m1'' [''Transcoding'']],
        next_ref = Suc 0\<rparr>" "''m1''" 0 "[''Multistreaming'']"]
    GetOrCreate_frame [of empty_storage "''m2''"]
    GetOrCreate_frame [of empty_storage "''m1''" _ "[''Multistreaming'']" "[''Transcoding'']" 0
      "\<lparr>records = [''m1'' \<mapsto> 0],
        heap = [0 \<mapsto> NewRecord ''m1'' [''Transcoding'']],
        next_ref = Suc 0\<rparr>"]
    present absent created
  show ?thesis
    by simp
qed

section \<open>Task events\<close>

text \<open>
  Claim C6. The event \<open>NewTaskEvent\<close> builds carries the type tag of a transcode event,
  for every \<open>TaskInfo\<close>, and that tag is not \<open>EventTypeTask\<close>.
\<close>

theorem NewTaskEvent_type_is_transcode:
  "Base_Type (Base (NewTaskEvent uuid now info)) = EventTypeTranscode \<and>
   Base_Type (Base (NewTaskEvent uuid now info)) \<noteq> EventTypeTask"
  by (simp add: NewTaskEvent_def newEventBase_def EventTypeTranscode_def EventTypeTask_def)

section \<open>Default pipeline and windows\<close>

lemma reducers_in_order_Default:
  "reducers_in_order (Default golpExchange shardPrefixes streamStateExchange) =
     (if streamStateExchange \<noteq> '''' then [StreamStateReducer streamStateExchange] else []) @
     [TranscodeReducer golpExchange shardPrefixes, MultistreamReducer, MediaServerMetrics,
      HealthReducer, StatsReducer statsWindows]"
  by (simp add: Default_def)

text \<open>
  Claim C7. With or without a stream-state exchange, the reducers of the pipeline
  \<open>Default\<close> builds run in this order: the primitive reducers (the stream-state reducer
  first when there is an exchange, then transcode, multistream and media-server
  metrics), then \<open>HealthReducer\<close>, then the \<open>StatsReducer\<close>, which is last.
\<close>

theorem Default_order:
  "\<exists>prims.
     reducers_in_order (Default golpExchange shardPrefixes streamStateExchange) =
       prims @ [HealthReducer, StatsReducer statsWindows] \<and>
     list_all primitive prims \<and>
     prims = (if streamStateExchange \<noteq> '''' then [StreamStateReducer streamStateExchange] else []) @
       [TranscodeReducer golpExchange shardPrefixes, MultistreamReducer, MediaServerMetrics] \<and>
     last (reducers_in_order (Default golpExchange shardPrefixes streamStateExchange)) =
       StatsReducer statsWindows"
  by (simp add: reducers_in_order_Default)

lemma sint_windows:
  "sint Minute = 60000000000" "sint (10 * Minute) = 600000000000" "sint Hour = 3600000000000"
  by (simp_all add: Hour_def Minute_def Second_def Millisecond_def Microsecond_def Nanosecond_def)

text \<open>
  Claim C8. The stats windows of the default configuration are the three durations
  1 minute, 10 minutes and 1 hour (in nanoseconds: 6 * 10^10, 6 * 10^11 and 36 * 10^11);
  \<open>maxStatsWindow\<close>, which \<open>DefaultStarTimeOffset\<close> returns, is defined (the index is in
  range), is 1 hour, and is the largest of the three as signed 64-bit values.
\<close>

theorem statsWindows_default:
  "statsWindows = [Minute, 10 * Minute, Hour] \<and>
   map sint statsWindows = [60000000000, 600000000000, 3600000000000] \<and>
   maxStatsWindow = Some Hour \<and>
   DefaultStarTimeOffset = Some Hour \<and>
   sint Hour = Max (set (map sint statsWindows))"
  by (simp add: statsWindows_def maxStatsWindow_def DefaultStarTimeOffset_def sint_windows)

section \<open>The SSE channel\<close>

lemma sendEvent_cases:
  "sendEvent toSSEEvent ctx dest evt = (ok, ctx', dest') \<Longrightarrow>
   (\<exists>sent. dest' = dest @ sent \<and>
      (ok \<longrightarrow> converted toSSEEvent (evt # evts) = sent @ converted toSSEEvent evts) \<and>
      (\<not> ok \<longrightarrow> sent = []) \<and>
      subseq sent (converted toSSEEvent [evt]) \<and>
      (True \<notin> set ctx \<longrightarrow> ok \<and> True \<notin> set ctx'))"
  by (auto simp: sendEvent_def split: sum.splits list.splits if_splits)

lemma send_while_prefix:
  "send_while toSSEEvent ctx dest evts = (ok, ctx', dest') \<Longrightarrow>
   \<exists>sent. dest' = dest @ sent \<and> prefix sent (converted toSSEEvent evts) \<and>
          (ok \<longrightarrow> sent = converted toSSEEvent evts) \<and>
          (True \<notin> set ctx \<longrightarrow> ok \<and> True \<notin> set ctx')"
proof (induction evts arbitrary: ctx dest)
  case Nil
  then show ?case by auto
next
  case (Cons evt evts)
  obtain ok1 ctx1 dest1 where s1: "sendEvent toSSEEvent ctx dest evt = (ok1, ctx1, dest1)"
    by (cases "sendEvent toSSEEvent ctx dest evt") auto
  from sendEvent_cases [OF s1, of evts] obtain sent1 where
    d1: "dest1 = dest @ sent1"
    and c1: "ok1 \<longrightarrow> converted toSSEEvent (evt # evts) = sent1 @ converted toSSEEvent evts"
    and n1: "\<not> ok1 \<longrightarrow> sent1 = []"
    and k1: "True \<notin> set ctx \<longrightarrow> ok1 \<and> True \<notin> set ctx1"
    by blast
  show ?case
  proof (cases ok1)
    case False
    with Cons.prems s1 d1 n1 k1 show ?thesis by auto
  next
    case True
    with Cons.prems s1 have "send_while toSSEEvent ctx1 dest1 evts = (ok, ctx', dest')"
      by simp
    from Cons.IH [OF this] obtain sent where
      "dest' = dest1 @ sent" "prefix sent (converted toSSEEvent evts)"
      "ok \<longrightarrow> sent = converted toSSEEvent evts"
      "True \<notin> set ctx1 \<longrightarrow> ok \<and> True \<notin> set ctx'"
      by blast
    with d1 c1 k1 True have
      "dest' = dest @ (sent1 @ sent) \<and> prefix (sent1 @ sent) (converted toSSEEvent (evt # evts)) \<and>
       (ok \<longrightarrow> sent1 @ sent = converted toSSEEvent (evt # evts)) \<and>
       (True \<notin> set ctx \<longrightarrow> ok \<and> True \<notin> set ctx')"
      by auto
    then show ?thesis by blast
  qed
qed

lemma send_each_subseq:
  "send_each toSSEEvent ctx dest evts = (ctx', dest') \<Longrightarrow>
   \<exists>sent. dest' = dest @ sent \<and> subseq sent (converted toSSEEvent evts) \<and>
          (True \<notin> set ctx \<longrightarrow> sent = converted toSSEEvent evts)"
proof (induction evts arbitrary: ctx dest)
  case Nil
  then show ?case by auto
next
  case (Cons evt evts)
  obtain ok1 ctx1 dest1 where s1: "sendEvent toSSEEvent ctx dest evt = (ok1, ctx1, dest1)"
    by (cases "sendEvent toSSEEvent ctx dest evt") auto
  from sendEvent_cases [OF s1, of evts] obtain sent1 where
    d1: "dest1 = dest @ sent1"
    and c1: "ok1 \<longrightarrow> converted toSSEEvent (evt # evts) = sent1 @ converted toSSEEvent evts"
    and n1: "\<not> ok1 \<longrightarrow> sent1 = []"
    and k1: "True \<notin> set ctx \<longrightarrow> ok1 \<and> True \<notin> set ctx1"
    by blast
  from Cons.prems s1 have "send_each toSSEEvent ctx1 dest1 evts = (ctx', dest')"
    by simp
  from Cons.IH [OF this] obtain sent where
    r: "dest' = dest1 @ sent" "subseq sent (converted toSSEEvent evts)"
    "True \<notin> set ctx1 \<longrightarrow> sent = converted toSSEEvent evts"
    by blast
  have sub: "subseq (sent1 @ sent) (converted toSSEEvent (evt # evts))"
  proof (cases ok1)
    case True
    with c1 r(2) show ?thesis
      by (simp add: list_emb_append_mono)
  next
    case False
    with n1 r(2) show ?thesis
      by (auto split: sum.splits)
  qed
  with d1 r c1 k1 have
    "dest' = dest @ (sent1 @ sent) \<and> subseq (sent1 @ sent) (converted toSSEEvent (evt # evts)) \<and>
     (True \<notin> set ctx \<longrightarrow> sent1 @ sent = converted toSSEEvent (evt # evts))"
    by auto
  then show ?case by blast
qed

lemma converted_append:
  "converted toSSEEvent (xs @ ys) = converted toSSEEvent xs @ converted toSSEEvent ys"
  by (induction xs) (auto split: sum.splits)

lemma converted_total:
  "\<forall>evt \<in> set evts. toSSEEvent evt = Inr (f evt) \<Longrightarrow> converted toSSEEvent evts = map f evts"
  by (induction evts) auto

lemma makeSSEEventChan_nil:
  "subseq (makeSSEEventChan toSSEEvent ctx pastEvents None) (converted toSSEEvent pastEvents) \<and>
   (True \<notin> set ctx \<longrightarrow>
      makeSSEEventChan toSSEEvent ctx pastEvents None = converted toSSEEvent pastEvents)"
proof -
  obtain ctx' dest' where s: "send_each toSSEEvent ctx [] pastEvents = (ctx', dest')"
    by (cases "send_each toSSEEvent ctx [] pastEvents")
  from send_each_subseq [OF s] s show ?thesis
    by (auto simp: makeSSEEventChan_def)
qed

lemma makeSSEEventChan_live:
  "prefix (makeSSEEventChan toSSEEvent ctx pastEvents (Some live))
     (converted toSSEEvent pastEvents @ converted toSSEEvent live) \<and>
   (True \<notin> set ctx \<longrightarrow>
      makeSSEEventChan toSSEEvent ctx pastEvents (Some live) =
        converted toSSEEvent pastEvents @ converted toSSEEvent live)"
proof -
  obtain ok ctx' events where s: "send_while toSSEEvent ctx [] pastEvents = (ok, ctx', events)"
    by (cases "send_while toSSEEvent ctx [] pastEvents") auto
  from send_while_prefix [OF s] have
    p: "prefix events (converted toSSEEvent pastEvents)"
    and o: "ok \<longrightarrow> events = converted toSSEEvent pastEvents"
    and k: "True \<notin> set ctx \<longrightarrow> ok \<and> True \<notin> set ctx'"
    by auto
  show ?thesis
  proof (cases ok)
    case False
    with s p k show ?thesis
      by (auto simp: makeSSEEventChan_def intro: prefix_order.trans)
  next
    case True
    obtain ok2 ctx2 events2 where
      s2: "send_while toSSEEvent ctx' events live = (ok2, ctx2, events2)"
      by (cases "send_while toSSEEvent ctx' events live") auto
    from send_while_prefix [OF s2] obtain sent where
      "events2 = events @ sent" "prefix sent (converted toSSEEvent live)"
      "True \<notin> set ctx' \<longrightarrow> sent = converted toSSEEvent live"
      by auto
    with True s s2 o k show ?thesis
      by (auto simp: makeSSEEventChan_def)
  qed
qed

text \<open>
  Claim C5 (as amended). For every backlog, live channel and context, the events of the
  SSE channel are a prefix of: the backlog's events that convert to SSE, in order,
  followed by the live channel's events that convert, in order. So every event of the
  backlog that is sent is sent before every live event, and nothing is reordered. When
  no \<open>select\<close> takes the case \<open>ctx.Done()\<close> the channel carries that whole sequence, and
  when moreover every event converts it is every backlog event followed by every live
  event. With a nil live channel the events of the SSE channel are events of the
  backlog that convert, in the backlog's order, and all of them when no \<open>select\<close>
  takes the case \<open>ctx.Done()\<close>.
\<close>

theorem makeSSEEventChan_backlog_then_live:
  "prefix (makeSSEEventChan toSSEEvent ctx pastEvents (Some live))
     (converted toSSEEvent pastEvents @ converted toSSEEvent live) \<and>
   (True \<notin> set ctx \<longrightarrow>
      makeSSEEventChan toSSEEvent ctx pastEvents (Some live) =
        converted toSSEEvent pastEvents @ converted toSSEEvent live) \<and>
   (True \<notin> set ctx \<and> (\<forall>evt \<in> set (pastEvents @ live). toSSEEvent evt = Inr (f evt)) \<longrightarrow>
      makeSSEEventChan toSSEEvent ctx pastEvents (Some live) = map f pastEvents @ map f live) \<and>
   subseq (makeSSEEventChan toSSEEvent ctx pastEvents None) (converted toSSEEvent pastEvents) \<and>
   (True \<notin> set ctx \<longrightarrow>
      makeSSEEventChan toSSEEvent ctx pastEvents None = converted toSSEEvent pastEvents)"
proof (intro conjI impI)
  show "prefix (makeSSEEventChan toSSEEvent ctx pastEvents (Some live))
     (converted toSSEEvent pastEvents @ converted toSSEEvent live)"
    using makeSSEEventChan_live by blast
next
  assume "True \<notin> set ctx"
  then show "makeSSEEventChan toSSEEvent ctx pastEvents (Some live) =
        converted toSSEEvent pastEvents @ converted toSSEEvent live"
    using makeSSEEventChan_live by blast
next
  assume a: "True \<notin> set ctx \<and> (\<forall>evt \<in> set (pastEvents @ live). toSSEEvent evt = Inr (f evt))"
  then have "converted toSSEEvent pastEvents = map f pastEvents"
    and "converted toSSEEvent live = map f live"
    by (auto intro: converted_total)
  with a show "makeSSEEventChan toSSEEvent ctx pastEvents (Some live) = map f pastEvents @ map f live"
    using makeSSEEventChan_live [of toSSEEvent ctx pastEvents live] by simp
next
  show "subseq (makeSSEEventChan toSSEEvent ctx pastEvents None) (converted toSSEEvent pastEvents)"
    using makeSSEEventChan_nil by blast
next
  assume "True \<notin> set ctx"
  then show "makeSSEEventChan toSSEEvent ctx pastEvents None = converted toSSEEvent pastEvents"
    using makeSSEEventChan_nil by blast
qed

theorem makeSSEEventChan_backlog_then_live_witness:
  "makeSSEEventChan sse_id [False] [transcode_event 1 10, transcode_event 2 20]
     (Some [transcode_event 3 30]) = [1, 2, 3]"
proof -
  have "True \<notin> set [False] \<and>
    (\<forall>evt \<in> set ([transcode_event 1 10, transcode_event 2 20] @ [transcode_event 3 30]).
       sse_id evt = Inr (Base_ID evt))"
    by (simp add: sse_id_def)
  with makeSSEEventChan_backlog_then_live
    [of sse_id "[False]" "[transcode_event 1 10, transcode_event 2 20]" "[transcode_event 3 30]"
      Base_ID]
  show ?thesis
    by (simp add: transcode_event_def)
qed

theorem makeSSEEventChan_cancelled_counterexample:
  "makeSSEEventChan sse_id [False, True] [transcode_event 1 10, transcode_event 2 20]
     (Some [transcode_event 3 30]) = [1] \<and>
   makeSSEEventChan sse_id [False, True] [transcode_event 1 10, transcode_event 2 20]
     (Some [transcode_event 3 30]) \<noteq>
   map Base_ID ([transcode_event 1 10, transcode_event 2 20] @ [transcode_event 3 30])"
  by (simp add: makeSSEEventChan_def sendEvent_def sse_id_def transcode_event_def)

section \<open>The events handler\<close>

lemma Core_record_history:
  "Core_record core m = Some rec \<Longrightarrow> history core m = PastEvents rec"
  by (simp add: history_def)

lemma GetPastEvents_range:
  "GetPastEvents core m (Some f) (Some t) =
     (filter (\<lambda>e. f \<le> Base_Timestamp e \<and> Base_Timestamp e < t) (history core m), None)"
  by (simp add: GetPastEvents_def history_def split: option.splits)

lemma queryEvents_to:
  "to_q r = Some t \<Longrightarrow>
   queryEvents core r =
     (case from_q r of
        None \<Rightarrow> Inl (StatusBadRequest, [ErrFromRequired])
      | Some f \<Rightarrow>
          Inr (filter (\<lambda>e. f \<le> Base_Timestamp e \<and> Base_Timestamp e < t)
                 (history core (streamID r)), None, None))"
  by (simp add: queryEvents_def GetPastEvents_range split: option.splits)

lemma subscribeEvents_valid:
  "nonNilErrs [err r, err1 r, err2 r] = [] \<Longrightarrow>
   subscribeEvents toSSEEvent serve ctx core r =
     (case queryEvents core r of
        Inl (status, errs') \<Rightarrow> [respondError status errs']
      | Inr (pastEvents, subscription, Some e) \<Rightarrow>
          [respondError StatusInternalServerError [e]]
      | Inr (pastEvents, subscription, None) \<Rightarrow>
          (let sseEvents = makeSSEEventChan toSSEEvent ctx pastEvents subscription
           in (case serve sseEvents of
                 None \<Rightarrow> [ServeEvents sseEvents]
               | Some (HTTPError status cause) \<Rightarrow>
                   [ServeEvents sseEvents, respondError status [cause]]
               | Some (OtherError e) \<Rightarrow>
                   [ServeEvents sseEvents, respondError StatusInternalServerError [e]])))"
  by (simp add: subscribeEvents_def)

lemma subscribeEvents_served:
  "nonNilErrs [err r, err1 r, err2 r] = [] \<Longrightarrow>
   queryEvents core r = Inr (pastEvents, subscription, None) \<Longrightarrow>
   hd (subscribeEvents toSSEEvent serve ctx core r) =
     ServeEvents (makeSSEEventChan toSSEEvent ctx pastEvents subscription)"
  by (simp add: subscribeEvents_valid Let_def split: option.splits serve_error.splits)

lemma nonNilErrs_empty:
  "nonNilErrs [a, b, c] = [] \<longleftrightarrow> a = None \<and> b = None \<and> c = None"
  by (auto simp: nonNilErrs_def split: option.splits)


lemma history_core_m1:
  "history core_m1 ''m1'' = [transcode_event 1 10, transcode_event 2 20, transcode_event 3 30]"
  by (simp add: history_def Core_record_def core_m1_def Get_def Load_def record_m1_def)



lemma SubscribeEvents_not_found:
  "Core_record core m = Some rec \<Longrightarrow> last_id \<notin> set (map Base_ID (PastEvents rec)) \<Longrightarrow>
   SubscribeEvents core m (Some last_id) from_t = ([], None, Some ErrEventNotFound)"
  by (simp add: SubscribeEvents_def)

lemma SubscribeEvents_no_cursor:
  "Core_record core m = Some rec \<Longrightarrow>
   SubscribeEvents core m None None = (PastEvents rec, Some (published core m), None)"
  by (simp add: SubscribeEvents_def)

text \<open>
  Claim C2 (as amended). Take an events request whose parameters parse, without \<open>to\<close>,
  for a stream that has a record, with a last event id that is not in the record's
  history. If \<open>mustFindLast\<close> is true the handler's only response is the error
  \<open>EventNotFound\<close> with HTTP status 404 (the handler passes the error to \<open>respondError\<close>
  with status 500, and \<open>respondError\<close> maps it). If \<open>mustFindLast\<close> is false the handler
  subscribes again with no cursor and serves the channel made from the whole history,
  from its start, and the live subscription.
\<close>

theorem unknown_lastEventID:
  assumes valid: "nonNilErrs [err r, err1 r, err2 r] = []"
    and no_to: "to_q r = None"
    and rec: "Core_record core (streamID r) = Some rec"
    and last_id: "lastEventID r = Some last_id"
    and unknown: "last_id \<notin> set (map Base_ID (PastEvents rec))"
  shows
    "(mustFindLast r \<longrightarrow>
        queryEvents core r = Inr ([], None, Some ErrEventNotFound) \<and>
        subscribeEvents toSSEEvent serve ctx core r = [Respond StatusNotFound [ErrEventNotFound]]) \<and>
     (\<not> mustFindLast r \<longrightarrow>
        queryEvents core r = Inr (SubscribeEvents core (streamID r) None None) \<and>
        queryEvents core r = Inr (PastEvents rec, Some (published core (streamID r)), None) \<and>
        hd (subscribeEvents toSSEEvent serve ctx core r) =
          ServeEvents (makeSSEEventChan toSSEEvent ctx (PastEvents rec)
                         (Some (published core (streamID r)))))"
proof (intro conjI impI)
  from rec unknown last_id have first:
    "SubscribeEvents core (streamID r) (lastEventID r) (from_q r) = ([], None, Some ErrEventNotFound)"
    by (simp add: SubscribeEvents_not_found)
  {
    assume must: "mustFindLast r"
    with first no_to show q: "queryEvents core r = Inr ([], None, Some ErrEventNotFound)"
      by (simp add: queryEvents_def)
    with valid show
      "subscribeEvents toSSEEvent serve ctx core r = [Respond StatusNotFound [ErrEventNotFound]]"
      by (simp add: subscribeEvents_valid respondError_def)
  }
  {
    assume may: "\<not> mustFindLast r"
    with first no_to show "queryEvents core r = Inr (SubscribeEvents core (streamID r) None None)"
      by (simp add: queryEvents_def)
    with rec show q: "queryEvents core r = Inr (PastEvents rec, Some (published core (streamID r)), None)"
      by (simp add: SubscribeEvents_no_cursor)
    from subscribeEvents_served [OF valid q] show
      "hd (subscribeEvents toSSEEvent serve ctx core r) =
          ServeEvents (makeSSEEventChan toSSEEvent ctx (PastEvents rec)
                         (Some (published core (streamID r))))" .
  }
qed

lemma Core_record_core_m1:
  "Core_record core_m1 ''m1'' = Some record_m1"
  by (simp add: Core_record_def core_m1_def Get_def Load_def)

lemma PastEvents_record_m1:
  "PastEvents record_m1 = [transcode_event 1 10, transcode_event 2 20, transcode_event 3 30]"
  by (simp add: record_m1_def)

theorem unknown_lastEventID_witness:
  "subscribeEvents sse_id serve_ok [] core_m1
     (request_m1\<lparr>lastEventID := Some 9, mustFindLast := True\<rparr>) =
     [Respond StatusNotFound [ErrEventNotFound]] \<and>
   hd (subscribeEvents sse_id serve_ok [] core_m1 (request_m1\<lparr>lastEventID := Some 9\<rparr>)) =
     ServeEvents (makeSSEEventChan sse_id []
       [transcode_event 1 10, transcode_event 2 20, transcode_event 3 30]
       (Some [transcode_event 4 40]))"
proof -
  have unknown: "9 \<notin> set (map Base_ID (PastEvents record_m1))"
    by (simp add: PastEvents_record_m1 transcode_event_def)
  have rec: "Core_record core_m1 (streamID (request_m1\<lparr>lastEventID := Some 9, mustFindLast := True\<rparr>)) =
      Some record_m1"
    "Core_record core_m1 (streamID (request_m1\<lparr>lastEventID := Some 9\<rparr>)) = Some record_m1"
    by (simp_all add: request_m1_def Core_record_core_m1)
  have valid:
    "nonNilErrs [err (request_m1\<lparr>lastEventID := Some 9, mustFindLast := True\<rparr>),
       err1 (request_m1\<lparr>lastEventID := Some 9, mustFindLast := True\<rparr>),
       err2 (request_m1\<lparr>lastEventID := Some 9, mustFindLast := True\<rparr>)] = []"
    "nonNilErrs [err (request_m1\<lparr>lastEventID := Some 9\<rparr>),
       err1 (request_m1\<lparr>lastEventID := Some 9\<rparr>),
       err2 (request_m1\<lparr>lastEventID := Some 9\<rparr>)] = []"
    by (simp_all add: request_m1_def nonNilErrs_def)
  have no_to: "to_q (request_m1\<lparr>lastEventID := Some 9, mustFindLast := True\<rparr>) = None"
    "to_q (request_m1\<lparr>lastEventID := Some 9\<rparr>) = None"
    by (simp_all add: request_m1_def)
  from unknown_lastEventID [OF valid(1) no_to(1) rec(1) _ unknown, of sse_id serve_ok "[]"]
    unknown_lastEventID [OF valid(2) no_to(2) rec(2) _ unknown, of sse_id serve_ok "[]"]
  show ?thesis
    by (simp add: request_m1_def PastEvents_record_m1 core_m1_def)
qed

theorem unknown_lastEventID_with_to_counterexample:
  "9 \<notin> set (map Base_ID (history core_m1 ''m1'')) \<and>
   subscribeEvents sse_id serve_ok [] core_m1
     (request_m1\<lparr>lastEventID := Some 9, mustFindLast := True, from_q := Some 10, to_q := Some 30\<rparr>) =
     [ServeEvents [1, 2]]"
  by (simp add: history_core_m1 subscribeEvents_def nonNilErrs_def request_m1_def queryEvents_def
        GetPastEvents_def Core_record_core_m1 PastEvents_record_m1 makeSSEEventChan_def
        sendEvent_def sse_id_def serve_ok_def transcode_event_def)

lemma queryEvents_traced_result:
  "snd (queryEvents_traced core r) = queryEvents core r"
  by (simp add: queryEvents_traced_def queryEvents_def Let_def split: option.splits prod.splits)

lemma subscribeEvents_traced_result:
  "snd (subscribeEvents_traced toSSEEvent serve ctx core r) =
   subscribeEvents toSSEEvent serve ctx core r"
proof -
  obtain calls res where q: "queryEvents_traced core r = (calls, res)"
    by (cases "queryEvents_traced core r")
  then have "queryEvents core r = res"
    using queryEvents_traced_result [of core r] by simp
  with q show ?thesis
    by (simp add: subscribeEvents_traced_def subscribeEvents_def Let_def
          split: sum.splits prod.splits option.splits serve_error.splits)
qed

lemma subscribeEvents_invalid:
  "nonNilErrs [err r, err1 r, err2 r] \<noteq> [] \<Longrightarrow>
   subscribeEvents toSSEEvent serve ctx core r =
     [respondError StatusBadRequest (nonNilErrs [err r, err1 r, err2 r])] \<and>
   fst (subscribeEvents_traced toSSEEvent serve ctx core r) = []"
  by (simp add: subscribeEvents_def subscribeEvents_traced_def Let_def)

lemma to_supplied_parses_or_fails:
  "nonNilErrs [err r, err1 r, err2 r] = [] \<Longrightarrow> to_q r \<noteq> None \<or> err2 r \<noteq> None \<Longrightarrow>
   \<exists>t. to_q r = Some t"
  by (auto simp: nonNilErrs_def split: option.splits)

text \<open>
  Claim C10 (as amended). Take any events request in which \<open>to\<close> is supplied (its
  value parses to a time, or fails to parse) and \<open>from\<close> is absent. The handler's only
  response is one error response; it makes no call of \<open>GetPastEvents\<close> or
  \<open>SubscribeEvents\<close> (the traced handler, which gives the handler's responses, lists no
  call) and serves no events, and the response is the same for every
  core, context and \<open>jsse.ServeEvents\<close>. When none of the three parameters (the last
  event id, \<open>from\<close>, \<open>to\<close>) gives a parse error, the response has HTTP status 400 and
  the error "query 'from' is required when using 'to'", from the early return of lines
  149 to 154. When one of them does, the response is the one of the parameter check,
  \<open>respondError\<close> with status 400 and the parse errors, which is HTTP 400 with those
  errors when none of them is \<open>EventNotFound\<close> or \<open>StreamNotFound\<close>.
\<close>

theorem to_without_from:
  assumes supplied: "to_q r \<noteq> None \<or> err2 r \<noteq> None" and absent: "from_q r = None"
  shows
    "(nonNilErrs [err r, err1 r, err2 r] = [] \<longrightarrow>
        queryEvents core r = Inl (StatusBadRequest, [ErrFromRequired]) \<and>
        subscribeEvents toSSEEvent serve ctx core r = [Respond 400 [ErrFromRequired]]) \<and>
     (nonNilErrs [err r, err1 r, err2 r] \<noteq> [] \<longrightarrow>
        subscribeEvents toSSEEvent serve ctx core r =
          [respondError StatusBadRequest (nonNilErrs [err r, err1 r, err2 r])]) \<and>
     (nonNilErrs [err r, err1 r, err2 r] \<noteq> [] \<and>
      ErrEventNotFound \<notin> set (nonNilErrs [err r, err1 r, err2 r]) \<and>
      ErrStreamNotFound \<notin> set (nonNilErrs [err r, err1 r, err2 r]) \<longrightarrow>
        subscribeEvents toSSEEvent serve ctx core r =
          [Respond 400 (nonNilErrs [err r, err1 r, err2 r])]) \<and>
     snd (subscribeEvents_traced toSSEEvent serve ctx core r) =
       subscribeEvents toSSEEvent serve ctx core r \<and>
     fst (subscribeEvents_traced toSSEEvent serve ctx core r) = [] \<and>
     (\<forall>sseEvents. ServeEvents sseEvents \<notin> set (subscribeEvents toSSEEvent serve ctx core r)) \<and>
     subscribeEvents toSSEEvent serve ctx core r = subscribeEvents toSSEEvent serve' ctx' core' r"
proof (cases "nonNilErrs [err r, err1 r, err2 r] = []")
  case True
  with supplied obtain t where t: "to_q r = Some t"
    by (auto dest: to_supplied_parses_or_fails)
  with absent have q: "queryEvents c r = Inl (StatusBadRequest, [ErrFromRequired])" for c
    by (simp add: queryEvents_to)
  from t absent have qt: "queryEvents_traced core r = ([], Inl (StatusBadRequest, [ErrFromRequired]))"
    by (simp add: queryEvents_traced_def)
  from True q have resp: "subscribeEvents toSSEEvent sv cx c r = [Respond 400 [ErrFromRequired]]"
    for sv cx c
    by (simp add: subscribeEvents_valid respondError_def ErrFromRequired_def StatusBadRequest_def)
  from True qt have "fst (subscribeEvents_traced toSSEEvent serve ctx core r) = []"
    by (simp add: subscribeEvents_traced_def)
  with True q resp show ?thesis
    by (simp add: subscribeEvents_traced_result)
next
  case False
  then have resp: "subscribeEvents toSSEEvent sv cx c r =
      [respondError StatusBadRequest (nonNilErrs [err r, err1 r, err2 r])]" for sv cx c
    by (simp add: subscribeEvents_invalid)
  from False have "fst (subscribeEvents_traced toSSEEvent serve ctx core r) = []"
    by (simp add: subscribeEvents_invalid)
  with False resp show ?thesis
    by (simp add: respondError_def StatusBadRequest_def subscribeEvents_traced_result)
qed

theorem to_without_from_witness:
  "queryEvents core_m1 (request_m1\<lparr>to_q := Some 30\<rparr>) = Inl (StatusBadRequest, [ErrFromRequired]) \<and>
   subscribeEvents sse_id serve_ok [] core_m1 (request_m1\<lparr>to_q := Some 30\<rparr>) =
     [Respond 400 [ErrFromRequired]] \<and>
   fst (subscribeEvents_traced sse_id serve_ok [] core_m1 (request_m1\<lparr>to_q := Some 30\<rparr>)) = [] \<and>
   subscribeEvents sse_id serve_ok [] core_m1
     (request_m1\<lparr>err2 := Some (Err ''bad time xyz'')\<rparr>) = [Respond 400 [Err ''bad time xyz'']] \<and>
   fst (subscribeEvents_traced sse_id serve_ok [] core_m1
     (request_m1\<lparr>err2 := Some (Err ''bad time xyz'')\<rparr>)) = []"
proof -
  have parsed: "to_q (request_m1\<lparr>to_q := Some 30\<rparr>) \<noteq> None \<or> err2 (request_m1\<lparr>to_q := Some 30\<rparr>) \<noteq> None"
    "from_q (request_m1\<lparr>to_q := Some 30\<rparr>) = None"
    "nonNilErrs [err (request_m1\<lparr>to_q := Some 30\<rparr>), err1 (request_m1\<lparr>to_q := Some 30\<rparr>),
       err2 (request_m1\<lparr>to_q := Some 30\<rparr>)] = []"
    by (simp_all add: request_m1_def nonNilErrs_def)
  have failed:
    "to_q (request_m1\<lparr>err2 := Some (Err ''bad time xyz'')\<rparr>) \<noteq> None \<or>
     err2 (request_m1\<lparr>err2 := Some (Err ''bad time xyz'')\<rparr>) \<noteq> None"
    "from_q (request_m1\<lparr>err2 := Some (Err ''bad time xyz'')\<rparr>) = None"
    "nonNilErrs [err (request_m1\<lparr>err2 := Some (Err ''bad time xyz'')\<rparr>),
       err1 (request_m1\<lparr>err2 := Some (Err ''bad time xyz'')\<rparr>),
       err2 (request_m1\<lparr>err2 := Some (Err ''bad time xyz'')\<rparr>)] = [Err ''bad time xyz'']"
    by (simp_all add: request_m1_def nonNilErrs_def)
  from to_without_from [OF parsed(1,2), where core = core_m1 and toSSEEvent = sse_id
      and serve = serve_ok and ctx = "[]" and serve' = serve_ok and ctx' = "[]"
      and core' = core_m1]
    to_without_from [OF failed(1,2), where core = core_m1 and toSSEEvent = sse_id
      and serve = serve_ok and ctx = "[]" and serve' = serve_ok and ctx' = "[]"
      and core' = core_m1]
    parsed(3) failed(3)
  show ?thesis
    by (simp add: respondError_def StatusBadRequest_def)
qed

theorem to_without_from_parse_error_counterexample:
  "subscribeEvents sse_id serve_ok [] core_m1
     (request_m1\<lparr>to_q := Some 30, err := Some (Err ''invalid UUID'')\<rparr>) =
     [Respond 400 [Err ''invalid UUID'']] \<and>
   subscribeEvents sse_id serve_ok [] core_m1
     (request_m1\<lparr>to_q := Some 30, err := Some (Err ''invalid UUID'')\<rparr>) \<noteq>
     [Respond 400 [ErrFromRequired]]"
  by (simp add: subscribeEvents_def nonNilErrs_def request_m1_def respondError_def
        StatusBadRequest_def ErrFromRequired_def)

section \<open>Health aggregation\<close>

lemma healthy_status_True:
  "healthy_status sts = Some True \<longleftrightarrow>
   (\<forall>st \<in> set sts. st \<noteq> None \<longrightarrow> st = Some True) \<and> (\<exists>st \<in> set sts. st \<noteq> None)"
  by (auto simp: healthy_status_def list_all_iff)

lemma healthy_status_None:
  "healthy_status sts = None \<longleftrightarrow> (\<forall>st \<in> set sts. st = None)"
  by (auto simp: healthy_status_def list_all_iff)

lemma healthy_status_False:
  "healthy_status sts = Some False \<longleftrightarrow>
   \<not> (\<forall>st \<in> set sts. st \<noteq> None \<longrightarrow> st = Some True) \<and> \<not> (\<forall>st \<in> set sts. st = None)"
  by (auto simp: healthy_status_def list_all_iff)

text \<open>
  Claim C3. After the health reducer has run on an event, the status of \<open>Healthy\<close> is
  true iff every sub-condition that is not unknown is true and at least one is not
  unknown; it is unknown iff every sub-condition is unknown; it is false in every
  other case; and the last-transition time of \<open>Healthy\<close> differs from the one before
  the event only if the status value differs, in which case it is the event's timestamp.
\<close>

theorem Healthy_aggregate:
  "(Status (Healthy (HealthReducer_Reduce current evt)) = Some True \<longleftrightarrow>
      (\<forall>c \<in> set (Status_Conditions current). Status c \<noteq> None \<longrightarrow> Status c = Some True) \<and>
      (\<exists>c \<in> set (Status_Conditions current). Status c \<noteq> None)) \<and>
   (Status (Healthy (HealthReducer_Reduce current evt)) = None \<longleftrightarrow>
      (\<forall>c \<in> set (Status_Conditions current). Status c = None)) \<and>
   (Status (Healthy (HealthReducer_Reduce current evt)) = Some False \<longleftrightarrow>
      \<not> ((\<forall>c \<in> set (Status_Conditions current). Status c \<noteq> None \<longrightarrow> Status c = Some True) \<and>
         (\<exists>c \<in> set (Status_Conditions current). Status c \<noteq> None)) \<and>
      \<not> (\<forall>c \<in> set (Status_Conditions current). Status c = None)) \<and>
   (LastTransitionTime (Healthy (HealthReducer_Reduce current evt)) \<noteq>
      LastTransitionTime (Healthy current) \<longrightarrow>
    Status (Healthy (HealthReducer_Reduce current evt)) \<noteq> Status (Healthy current) \<and>
    LastTransitionTime (Healthy (HealthReducer_Reduce current evt)) = Some (Base_Timestamp evt)) \<and>
   (Status (Healthy (HealthReducer_Reduce current evt)) = Status (Healthy current) \<longrightarrow>
    LastTransitionTime (Healthy (HealthReducer_Reduce current evt)) =
      LastTransitionTime (Healthy current))"
proof -
  let ?subs = "map Status (Status_Conditions current)"
  have st: "Status (Healthy (HealthReducer_Reduce current evt)) = healthy_status ?subs"
    by (simp add: HealthReducer_Reduce_def Let_def)
  have lt: "LastTransitionTime (Healthy (HealthReducer_Reduce current evt)) =
      (if healthy_status ?subs = Status (Healthy current)
       then LastTransitionTime (Healthy current) else Some (Base_Timestamp evt))"
    by (simp add: HealthReducer_Reduce_def Let_def)
  have t: "healthy_status ?subs = Some True \<longleftrightarrow>
      (\<forall>c \<in> set (Status_Conditions current). Status c \<noteq> None \<longrightarrow> Status c = Some True) \<and>
      (\<exists>c \<in> set (Status_Conditions current). Status c \<noteq> None)"
    by (simp add: healthy_status_True)
  have u: "healthy_status ?subs = None \<longleftrightarrow>
      (\<forall>c \<in> set (Status_Conditions current). Status c = None)"
    by (simp add: healthy_status_None)
  have f: "healthy_status ?subs = Some False \<longleftrightarrow>
      \<not> ((\<forall>c \<in> set (Status_Conditions current). Status c \<noteq> None \<longrightarrow> Status c = Some True) \<and>
         (\<exists>c \<in> set (Status_Conditions current). Status c \<noteq> None)) \<and>
      \<not> (\<forall>c \<in> set (Status_Conditions current). Status c = None)"
  proof -
    have "healthy_status ?subs = Some False \<longleftrightarrow>
        healthy_status ?subs \<noteq> Some True \<and> healthy_status ?subs \<noteq> None"
      by (cases "healthy_status ?subs") auto
    then show ?thesis
      unfolding t u .
  qed
  have tr: "LastTransitionTime (Healthy (HealthReducer_Reduce current evt)) \<noteq>
      LastTransitionTime (Healthy current) \<longrightarrow>
    Status (Healthy (HealthReducer_Reduce current evt)) \<noteq> Status (Healthy current) \<and>
    LastTransitionTime (Healthy (HealthReducer_Reduce current evt)) = Some (Base_Timestamp evt)"
    unfolding st lt by simp
  have keep: "Status (Healthy (HealthReducer_Reduce current evt)) = Status (Healthy current) \<longrightarrow>
    LastTransitionTime (Healthy (HealthReducer_Reduce current evt)) =
      LastTransitionTime (Healthy current)"
    unfolding st lt by simp
  from t u f tr keep show ?thesis
    unfolding st by (intro conjI)
qed

theorem Healthy_aggregate_witness:
  "Status (Healthy (HealthReducer_Reduce status_m1 (transcode_event 1 10))) = Some True \<and>
   Status (Healthy (HealthReducer_Reduce status_m1 (transcode_event 1 10))) \<noteq> Status (Healthy status_m1) \<and>
   LastTransitionTime (Healthy (HealthReducer_Reduce status_m1 (transcode_event 1 10))) = Some 10"
proof -
  have subs: "map Status (Status_Conditions status_m1) = [Some True, None]"
    by (simp add: status_m1_def NewCondition_def)
  have conds: "(\<forall>c \<in> set (Status_Conditions status_m1). Status c \<noteq> None \<longrightarrow> Status c = Some True) \<and>
      (\<exists>c \<in> set (Status_Conditions status_m1). Status c \<noteq> None)"
    by (auto simp: status_m1_def NewCondition_def)
  have old: "Status (Healthy status_m1) = None" "LastTransitionTime (Healthy status_m1) = None"
    by (simp_all add: status_m1_def NewCondition_def)
  have ts: "Base_Timestamp (transcode_event 1 10) = 10"
    by (simp add: transcode_event_def)
  from Healthy_aggregate [of status_m1 "transcode_event 1 10"] conds
  have new: "Status (Healthy (HealthReducer_Reduce status_m1 (transcode_event 1 10))) = Some True"
    by blast
  have "LastTransitionTime (Healthy (HealthReducer_Reduce status_m1 (transcode_event 1 10))) = Some 10"
    by (simp add: HealthReducer_Reduce_def Let_def subs healthy_status_def old ts)
  with new old show ?thesis
    by simp
qed

end
